theory Spec2Isabelle
  imports Complex_Main "HOL-Library.Multiset" "HOL-Library.Code_Target_Numeral"
begin

section \<open>The interview assistant's server: question rotation, attempts, analytics\<close>

text \<open>
  A shallow embedding of the request handlers of \<^verbatim>\<open>src/server/server.js\<close>. The database
  is a record of its three tables, each a list of rows in table order. A handler takes the
  database and returns its HTTP response together with the database it leaves behind.
  \<^verbatim>\<open>authenticateToken\<close> has run before every handler modelled here, so the caller's id
  (\<^verbatim>\<open>req.user.id\<close>) is an argument. Each request runs to its end before the next one
  starts: the interleaving of the callbacks of two requests is not modelled. A query fails
  in the model where the value bound to it makes it fail; a failure of the connection, which
  every handler answers with status 500, is not modelled.
\<close>

subsection \<open>Tables\<close>

text \<open>
  The \<^verbatim>\<open>CREATE TABLE\<close> statements are not among the sources. The columns are the ones the
  queries name; \<^verbatim>\<open>questions.id\<close> is the key of its table, which the theorems below take as
  the hypothesis \<open>distinct (map q_id (questions db))\<close>.
\<close>

record question =
  q_id :: int
  q_topic :: string
  q_text :: string
  q_difficulty :: string

record usage =
  qu_user_id :: int
  qu_question_id :: int

record attempt =
  attempt_id :: int
  user_id :: int
  topic :: "string option"
  score :: "rat option"
  total_questions :: "rat option"
  correct_answers :: "rat option"
  duration_minutes :: "rat option"
  confidence_score :: "rat option"
  facial_expression_score :: "rat option"
  attempt_date :: int

record db =
  questions :: "question list"
  question_usage :: "usage list"
  interview_attempts :: "attempt list"

text \<open>\<^verbatim>\<open>res.status(code).json({ error: message })\<close>\<close>

datatype error = Error nat string

subsection \<open>\<^verbatim>\<open>parseInt(count)\<close>\<close>

text \<open>
  The result of \<^verbatim>\<open>parseInt\<close>, a double: \<^verbatim>\<open>NaN\<close>, an infinity, or an integer that a double
  holds exactly.
\<close>

datatype js_number = NaN | Num int | PosInfinity | NegInfinity

text \<open>
  A character of a string stands for the UTF-16 code unit of the same number, so the strings
  of the model are the JavaScript strings whose code units are below 256 (ASCII and
  Latin-1). The white space \<^verbatim>\<open>parseInt\<close> skips is, among these code units, TAB, LF, VT, FF,
  CR, SP and NBSP (U+00A0); the other white space of ECMAScript (U+1680, U+2000 to U+200A,
  U+2028, U+2029, U+202F, U+205F, U+3000, U+FEFF) lies beyond 255.
\<close>

definition is_ws :: "char \<Rightarrow> bool" where
  "is_ws c = (c = CHR 0x09 \<or> c = CHR 0x0A \<or> c = CHR 0x0B \<or> c = CHR 0x0C \<or> c = CHR 0x0D \<or>
              c = CHR 0x20 \<or> c = CHR 0xA0)"

definition digit_val :: "char \<Rightarrow> nat option" where
  "digit_val c =
     (let n = (of_char c :: nat)
      in if 48 \<le> n \<and> n \<le> 57 then Some (n - 48)
         else if 97 \<le> n \<and> n \<le> 102 then Some (n - 87)
         else if 65 \<le> n \<and> n \<le> 70 then Some (n - 55)
         else None)"

definition is_digit :: "nat \<Rightarrow> char \<Rightarrow> bool" where
  "is_digit R c = (case digit_val c of None \<Rightarrow> False | Some d \<Rightarrow> d < R)"

definition digits_value :: "nat \<Rightarrow> string \<Rightarrow> nat" where
  "digits_value R Z = foldl (\<lambda>a c. a * R + (case digit_val c of None \<Rightarrow> 0 | Some d \<Rightarrow> d)) 0 Z"

text \<open>The number of binary digits of a natural number.\<close>

fun bit_length :: "nat \<Rightarrow> nat" where
  "bit_length n = (if n = 0 then 0 else Suc (bit_length (n div 2)))"

declare bit_length.simps [simp del]

text \<open>
  The Number value of a natural number: the nearest double, a tie going to the even
  significand of 53 bits; \<open>None\<close> is the overflow to infinity. Up to \<open>2 ^ 53\<close> the double is
  the number itself; from there on \<open>e\<close> low bits are rounded away.
\<close>

definition nearest_double :: "nat \<Rightarrow> int option" where
  "nearest_double n =
     (let m = int n
      in if m < 2 ^ 53 then Some m
         else
           let e = bit_length n - 53;
               q = m div 2 ^ e;
               r = m mod 2 ^ e;
               half = 2 ^ (e - 1);
               q' = (if half < r \<or> (r = half \<and> odd q) then q + 1 else q);
               v = q' * 2 ^ e
           in if 2 ^ 1024 \<le> v then None else Some v)"

text \<open>
  \<^verbatim>\<open>parseInt(string)\<close> with no radix (ECMAScript): skip leading white space, read a sign,
  read the prefix \<^verbatim>\<open>0x\<close> or \<^verbatim>\<open>0X\<close> (radix 16, otherwise radix 10), take the longest run of
  digits and ignore whatever follows it; no digit at all gives \<^verbatim>\<open>NaN\<close>. The result is the
  Number value of the signed integer read. (Beyond 20 significant decimal digits ECMAScript
  lets an implementation round the digits first; the result is the correctly rounded one
  here, as V8 gives it, and is above \<open>2 ^ 63\<close> in either case.)
\<close>

definition js_parseInt :: "string \<Rightarrow> js_number" where
  "js_parseInt inputString =
     (let S = dropWhile is_ws inputString;
          sign = (case S of [] \<Rightarrow> 1 | c # _ \<Rightarrow> if c = CHR ''-'' then - 1 else (1::int));
          S1 = (case S of [] \<Rightarrow> S | c # r \<Rightarrow> if c = CHR ''+'' \<or> c = CHR ''-'' then r else S);
          hex = (take 2 S1 = ''0x'' \<or> take 2 S1 = ''0X'');
          R = (if hex then 16 else 10);
          S2 = (if hex then drop 2 S1 else S1);
          Z = takeWhile (is_digit R) S2
      in if Z = [] then NaN
         else case nearest_double (digits_value R Z) of
                None \<Rightarrow> if sign < 0 then NegInfinity else PosInfinity
              | Some v \<Rightarrow> Num (sign * v))"

text \<open>
  \<^verbatim>\<open>const { count = 5 } = req.query\<close>, then \<^verbatim>\<open>parseInt(count)\<close>: the query parameter is a
  string, or absent, and then the number 5 stands in.
\<close>

definition parse_count :: "string option \<Rightarrow> js_number" where
  "parse_count cnt = (case cnt of None \<Rightarrow> Num 5 | Some s \<Rightarrow> js_parseInt s)"

subsection \<open>The queries of \<^verbatim>\<open>GET /api/questions/:topic\<close>\<close>

text \<open>
  \<^verbatim>\<open>SELECT COUNT(DISTINCT q.id) FROM questions q JOIN question_usage qu
  ON q.id = qu.question_id WHERE q.topic = ? AND qu.user_id = ?\<close>
\<close>

definition used_count :: "db \<Rightarrow> string \<Rightarrow> int \<Rightarrow> nat" where
  "used_count d t u =
     length (remdups [q_id q. q \<leftarrow> questions d, qu \<leftarrow> question_usage d,
                       q_id q = qu_question_id qu, q_topic q = t \<and> qu_user_id qu = u])"

text \<open>\<^verbatim>\<open>SELECT COUNT(*) FROM questions WHERE topic = ?\<close>\<close>

definition total_questions_of :: "db \<Rightarrow> string \<Rightarrow> nat" where
  "total_questions_of d t = length (filter (\<lambda>q. q_topic q = t) (questions d))"

text \<open>
  \<^verbatim>\<open>DELETE FROM question_usage WHERE user_id = ? AND question_id IN
  (SELECT id FROM questions WHERE topic = ?)\<close>
\<close>

definition reset_usage :: "db \<Rightarrow> int \<Rightarrow> string \<Rightarrow> db" where
  "reset_usage d u t =
     d\<lparr>question_usage :=
         filter (\<lambda>qu. \<not> (qu_user_id qu = u \<and>
                         qu_question_id qu \<in> set (map q_id (filter (\<lambda>q. q_topic q = t) (questions d)))))
                (question_usage d)\<rparr>"

text \<open>
  \<^verbatim>\<open>SELECT q.* FROM questions q WHERE q.topic = ? AND q.id NOT IN
  (SELECT qu.question_id FROM question_usage qu WHERE qu.user_id = ?)\<close>
\<close>

definition unused_questions :: "db \<Rightarrow> string \<Rightarrow> int \<Rightarrow> question list" where
  "unused_questions d t u =
     filter (\<lambda>q. q_topic q = t \<and>
                 q_id q \<notin> set (map qu_question_id (filter (\<lambda>qu. qu_user_id qu = u) (question_usage d))))
            (questions d)"

text \<open>
  \<^verbatim>\<open>ORDER BY RANDOM()\<close>: every row gets a random key and the rows are sorted by it. The
  keys are an argument: \<open>rnd i\<close> is the key of the \<open>i\<close>-th row. Every order of the rows is
  the result for some \<open>rnd\<close>.
\<close>

definition order_by_random :: "(nat \<Rightarrow> int) \<Rightarrow> 'a list \<Rightarrow> 'a list" where
  "order_by_random rnd rows = map snd (sort_key fst (zip (map rnd [0..<length rows]) rows))"

text \<open>
  \<^verbatim>\<open>LIMIT ?\<close> (SQLite) with the number bound to it: a negative bound is no bound. The query
  fails, which is \<open>None\<close> here, on a bound that SQLite cannot take as an integer: \<^verbatim>\<open>NaN\<close>
  (bound as NULL), an infinity, and a double that is not strictly between \<open>- 2 ^ 63\<close> and
  \<open>2 ^ 63\<close> (a number outside 32 bits is bound as a double, and SQLite converts a double
  only inside these bounds).
\<close>

definition sql_limit :: "js_number \<Rightarrow> 'a list \<Rightarrow> 'a list option" where
  "sql_limit n rows =
     (case n of
        NaN \<Rightarrow> None
      | PosInfinity \<Rightarrow> None
      | NegInfinity \<Rightarrow> None
      | Num k \<Rightarrow> if k \<le> - (2 ^ 63) \<or> 2 ^ 63 \<le> k then None
                 else if k < 0 then Some rows
                 else Some (take (nat k) rows))"

text \<open>\<^verbatim>\<open>INSERT INTO question_usage (user_id, question_id) VALUES (?, ?)\<close>, once per question.\<close>

definition insertUsage :: "int \<Rightarrow> question list \<Rightarrow> usage list \<Rightarrow> usage list" where
  "insertUsage u qs rows = rows @ map (\<lambda>q. \<lparr>qu_user_id = u, qu_question_id = q_id q\<rparr>) qs"

definition getRandomQuestions ::
  "db \<Rightarrow> int \<Rightarrow> string \<Rightarrow> string option \<Rightarrow> (nat \<Rightarrow> int) \<Rightarrow> (error + question list) \<times> db" where
  "getRandomQuestions d u t cnt rnd =
     (case sql_limit (parse_count cnt) (order_by_random rnd (unused_questions d t u)) of
        None \<Rightarrow> (Inl (Error 500 ''Database error''), d)
      | Some qs \<Rightarrow> (Inr qs, d\<lparr>question_usage := insertUsage u qs (question_usage d)\<rparr>))"

text \<open>The handler of \<^verbatim>\<open>GET /api/questions/:topic\<close>.\<close>

definition get_questions ::
  "db \<Rightarrow> int \<Rightarrow> string \<Rightarrow> string option \<Rightarrow> (nat \<Rightarrow> int) \<Rightarrow> (error + question list) \<times> db" where
  "get_questions d u t cnt rnd =
     (let usedCount = used_count d t u;
          totalQuestions = total_questions_of d t
      in if usedCount \<ge> totalQuestions
         then getRandomQuestions (reset_usage d u t) u t cnt rnd
         else getRandomQuestions d u t cnt rnd)"

text \<open>Requests one after the other: the same user and topic, one random source per request.\<close>

fun draws ::
  "db \<Rightarrow> int \<Rightarrow> string \<Rightarrow> string option \<Rightarrow> (nat \<Rightarrow> int) list \<Rightarrow> (error + question list) list \<times> db" where
  "draws d u t cnt [] = ([], d)"
| "draws d u t cnt (rnd # rnds) =
     (case get_questions d u t cnt rnd of
        (r, d') \<Rightarrow> (case draws d' u t cnt rnds of (rs, d'') \<Rightarrow> (r # rs, d'')))"

text \<open>Requests one after the other, of any users for any topics.\<close>

record request =
  req_user :: int
  req_topic :: string
  req_count :: "string option"
  req_rnd :: "nat \<Rightarrow> int"

fun serve :: "db \<Rightarrow> request list \<Rightarrow> db" where
  "serve d [] = d"
| "serve d (r # rs) =
     serve (snd (get_questions d (req_user r) (req_topic r) (req_count r) (req_rnd r))) rs"

text \<open>
  A validation error is a response the caller sees with a 4xx status; a storage failure is
  reported with status 500.
\<close>

definition is_validation_error :: "error + 'a \<Rightarrow> bool" where
  "is_validation_error r =
     (case r of Inl (Error code msg) \<Rightarrow> 400 \<le> code \<and> code < 500 | Inr x \<Rightarrow> False)"

subsection \<open>\<^verbatim>\<open>POST /api/attempts\<close>\<close>

text \<open>
  A field of the JSON body: missing (\<^verbatim>\<open>undefined\<close> after destructuring), \<^verbatim>\<open>null\<close>, or a
  value of the type the client's \<^verbatim>\<open>InterviewAttempt\<close> interface gives the field. A number
  is the double that \<^verbatim>\<open>JSON.parse\<close> made, taken as the rational it is.
\<close>

datatype 'a field = Absent | Null | Val 'a

record attempt_body =
  body_topic :: "string field"
  body_score :: "rat field"
  totalQuestions :: "rat field"
  correctAnswers :: "rat field"
  durationMinutes :: "rat field"
  confidenceScore :: "rat field"
  facialExpressionScore :: "rat field"

text \<open>\<^verbatim>\<open>!x\<close> on a string field and on a number field.\<close>

definition falsy_string :: "string field \<Rightarrow> bool" where
  "falsy_string x = (case x of Absent \<Rightarrow> True | Null \<Rightarrow> True | Val s \<Rightarrow> s = [])"

definition falsy_number :: "rat field \<Rightarrow> bool" where
  "falsy_number x = (case x of Absent \<Rightarrow> True | Null \<Rightarrow> True | Val n \<Rightarrow> n = 0)"

text \<open>The value bound to a \<^verbatim>\<open>?\<close> of the statement: \<^verbatim>\<open>undefined\<close> and \<^verbatim>\<open>null\<close> are NULL.\<close>

definition to_sql :: "'a field \<Rightarrow> 'a option" where
  "to_sql x = (case x of Absent \<Rightarrow> None | Null \<Rightarrow> None | Val v \<Rightarrow> Some v)"

text \<open>\<^verbatim>\<open>this.lastID\<close>: the row id SQLite gives the new row, one more than the largest in use.\<close>

definition lastID :: "attempt list \<Rightarrow> int" where
  "lastID rows = fold max (map attempt_id rows) 0 + 1"

text \<open>\<^verbatim>\<open>res.json({ id: this.lastID, message: 'Attempt saved successfully' })\<close>\<close>

record saved =
  saved_id :: int
  message :: string

text \<open>
  The handler of \<^verbatim>\<open>POST /api/attempts\<close>. The table's declaration is not among the sources:
  \<open>constraints\<close> says which rows the table accepts (its NOT NULL and CHECK constraints),
  and \<open>now\<close> is the value its default gives \<^verbatim>\<open>attempt_date\<close>, a column the INSERT does not
  name.
\<close>

definition post_attempts ::
  "(attempt \<Rightarrow> bool) \<Rightarrow> int \<Rightarrow> db \<Rightarrow> int \<Rightarrow> attempt_body \<Rightarrow> (error + saved) \<times> db" where
  "post_attempts constraints now d u body =
     (if falsy_string (body_topic body) \<or> body_score body = Absent \<or>
         falsy_number (totalQuestions body) \<or> correctAnswers body = Absent
      then (Inl (Error 400 ''Missing required fields''), d)
      else
        let row = \<lparr>attempt_id = lastID (interview_attempts d),
                   user_id = u,
                   topic = to_sql (body_topic body),
                   score = to_sql (body_score body),
                   total_questions = to_sql (totalQuestions body),
                   correct_answers = to_sql (correctAnswers body),
                   duration_minutes = to_sql (durationMinutes body),
                   confidence_score = to_sql (confidenceScore body),
                   facial_expression_score = to_sql (facialExpressionScore body),
                   attempt_date = now\<rparr>
        in if constraints row
           then (Inr \<lparr>saved_id = attempt_id row, message = ''Attempt saved successfully''\<rparr>,
                 d\<lparr>interview_attempts := interview_attempts d @ [row]\<rparr>)
           else (Inl (Error 500 ''Database error''), d))"

text \<open>
  The row of that INSERT by itself: the caller's id and the seven fields of the body as they
  are bound, with the id and the date the table gives the row.
\<close>

definition inserted_row :: "int \<Rightarrow> db \<Rightarrow> int \<Rightarrow> attempt_body \<Rightarrow> attempt" where
  "inserted_row now d u body =
     \<lparr>attempt_id = lastID (interview_attempts d),
      user_id = u,
      topic = to_sql (body_topic body),
      score = to_sql (body_score body),
      total_questions = to_sql (totalQuestions body),
      correct_answers = to_sql (correctAnswers body),
      duration_minutes = to_sql (durationMinutes body),
      confidence_score = to_sql (confidenceScore body),
      facial_expression_score = to_sql (facialExpressionScore body),
      attempt_date = now\<rparr>"

subsection \<open>\<^verbatim>\<open>GET /api/attempts\<close> and \<^verbatim>\<open>GET /api/analytics\<close>\<close>

text \<open>\<^verbatim>\<open>WHERE user_id = ?\<close>\<close>

definition attempts_of :: "db \<Rightarrow> int \<Rightarrow> attempt list" where
  "attempts_of d u = filter (\<lambda>a. user_id a = u) (interview_attempts d)"

text \<open>\<^verbatim>\<open>ORDER BY attempt_date DESC\<close>; rows of one date come in an order SQL leaves open.\<close>

definition order_by_attempt_date_desc :: "attempt list \<Rightarrow> attempt list" where
  "order_by_attempt_date_desc rows = rev (sort_key attempt_date rows)"

definition get_attempts :: "db \<Rightarrow> int \<Rightarrow> attempt list" where
  "get_attempts d u = order_by_attempt_date_desc (attempts_of d u)"

text \<open>
  The aggregates of SQL skip NULL and are NULL when no value is left. \<^verbatim>\<open>AVG\<close> is the exact
  mean here; the rounding of the floating-point result is not modelled.
\<close>

definition non_null :: "'a option list \<Rightarrow> 'a list" where
  "non_null xs = [x. Some x \<leftarrow> xs]"

definition sql_avg :: "rat option list \<Rightarrow> rat option" where
  "sql_avg xs =
     (case non_null xs of [] \<Rightarrow> None | y # ys \<Rightarrow> Some (sum_list (y # ys) / of_nat (length (y # ys))))"

definition sql_max :: "rat option list \<Rightarrow> rat option" where
  "sql_max xs = (case non_null xs of [] \<Rightarrow> None | y # ys \<Rightarrow> Some (fold max ys y))"

definition sql_min :: "rat option list \<Rightarrow> rat option" where
  "sql_min xs = (case non_null xs of [] \<Rightarrow> None | y # ys \<Rightarrow> Some (fold min ys y))"

record overall_row =
  total_attempts :: nat
  average_score :: "rat option"
  best_score :: "rat option"
  worst_score :: "rat option"
  avg_duration :: "rat option"

record topic_row =
  ts_topic :: "string option"
  ts_attempts :: nat
  ts_avg_score :: "rat option"
  ts_best_score :: "rat option"
  ts_worst_score :: "rat option"

record recent_row =
  r_score :: "rat option"
  r_attempt_date :: int
  r_topic :: "string option"
  r_confidence_score :: "rat option"
  r_facial_expression_score :: "rat option"

text \<open>
  \<^verbatim>\<open>SELECT COUNT(*), AVG(score), MAX(score), MIN(score), AVG(duration_minutes)
  FROM interview_attempts WHERE user_id = ?\<close>
\<close>

definition overall_query :: "db \<Rightarrow> int \<Rightarrow> overall_row" where
  "overall_query d u =
     (let rows = attempts_of d u
      in \<lparr>total_attempts = length rows,
          average_score = sql_avg (map score rows),
          best_score = sql_max (map score rows),
          worst_score = sql_min (map score rows),
          avg_duration = sql_avg (map duration_minutes rows)\<rparr>)"

text \<open>
  \<^verbatim>\<open>SELECT topic, COUNT(*), AVG(score), MAX(score), MIN(score)
  FROM interview_attempts WHERE user_id = ? GROUP BY topic\<close>: one row for each topic among
  the user's attempts, here in the order of the topics' first attempts.
\<close>

definition topic_stats_query :: "db \<Rightarrow> int \<Rightarrow> topic_row list" where
  "topic_stats_query d u =
     (let rows = attempts_of d u
      in map (\<lambda>t. let grp = filter (\<lambda>a. topic a = t) rows
                  in \<lparr>ts_topic = t,
                      ts_attempts = length grp,
                      ts_avg_score = sql_avg (map score grp),
                      ts_best_score = sql_max (map score grp),
                      ts_worst_score = sql_min (map score grp)\<rparr>)
             (remdups (map topic rows)))"

text \<open>
  \<^verbatim>\<open>SELECT score, attempt_date, topic, confidence_score, facial_expression_score
  FROM interview_attempts WHERE user_id = ? ORDER BY attempt_date DESC LIMIT 20\<close>
\<close>

definition recent_query :: "db \<Rightarrow> int \<Rightarrow> recent_row list" where
  "recent_query d u =
     map (\<lambda>a. \<lparr>r_score = score a, r_attempt_date = attempt_date a, r_topic = topic a,
               r_confidence_score = confidence_score a,
               r_facial_expression_score = facial_expression_score a\<rparr>)
         (take 20 (order_by_attempt_date_desc (attempts_of d u)))"

text \<open>\<^verbatim>\<open>res.json({ overall, topicStats, recentAttempts })\<close>\<close>

record analytics =
  overall :: overall_row
  topicStats :: "topic_row list"
  recentAttempts :: "recent_row list"

definition get_analytics :: "db \<Rightarrow> int \<Rightarrow> analytics" where
  "get_analytics d u =
     \<lparr>overall = overall_query d u,
      topicStats = topic_stats_query d u,
      recentAttempts = recent_query d u\<rparr>"

subsection \<open>A small database for the examples\<close>

definition ex_q1 :: question where
  "ex_q1 = \<lparr>q_id = 1, q_topic = ''js'', q_text = ''What is a closure?'', q_difficulty = ''beginner''\<rparr>"

definition ex_q2 :: question where
  "ex_q2 = \<lparr>q_id = 2, q_topic = ''js'', q_text = ''What is hoisting?'', q_difficulty = ''beginner''\<rparr>"

definition ex_q3 :: question where
  "ex_q3 = \<lparr>q_id = 3, q_topic = ''js'', q_text = ''What is a promise?'', q_difficulty = ''intermediate''\<rparr>"

definition ex_q4 :: question where
  "ex_q4 = \<lparr>q_id = 4, q_topic = ''sql'', q_text = ''What is a join?'', q_difficulty = ''beginner''\<rparr>"

text \<open>User 7 has drawn nothing of topic js; user 9 has, and user 7 has drawn from topic sql.\<close>

definition ex_db :: db where
  "ex_db = \<lparr>questions = [ex_q1, ex_q2, ex_q3, ex_q4],
            question_usage = [\<lparr>qu_user_id = 9, qu_question_id = 1\<rparr>,
                              \<lparr>qu_user_id = 7, qu_question_id = 4\<rparr>],
            interview_attempts = []\<rparr>"

text \<open>User 7 has drawn one of the three questions of topic js.\<close>

definition ex_db_one_used :: db where
  "ex_db_one_used = ex_db\<lparr>question_usage := [\<lparr>qu_user_id = 7, qu_question_id = 1\<rparr>]\<rparr>"

text \<open>User 7 has drawn all three questions of topic js.\<close>

definition ex_db_all_used :: db where
  "ex_db_all_used =
     ex_db\<lparr>question_usage := [\<lparr>qu_user_id = 7, qu_question_id = 2\<rparr>,
                              \<lparr>qu_user_id = 9, qu_question_id = 1\<rparr>,
                              \<lparr>qu_user_id = 7, qu_question_id = 1\<rparr>,
                              \<lparr>qu_user_id = 7, qu_question_id = 4\<rparr>,
                              \<lparr>qu_user_id = 7, qu_question_id = 3\<rparr>]\<rparr>"

text \<open>Random keys that leave the rows in table order, and keys that reverse them.\<close>

definition ex_rnd :: "nat \<Rightarrow> int" where
  "ex_rnd i = int i"

definition ex_rnd_rev :: "nat \<Rightarrow> int" where
  "ex_rnd_rev i = - int i"

text \<open>A table of attempts without constraints.\<close>

definition no_constraints :: "attempt \<Rightarrow> bool" where
  "no_constraints row = True"

text \<open>A table of attempts whose four required columns are NOT NULL.\<close>

definition required_not_null :: "attempt \<Rightarrow> bool" where
  "required_not_null row =
     (topic row \<noteq> None \<and> score row \<noteq> None \<and> total_questions row \<noteq> None \<and>
      correct_answers row \<noteq> None)"

definition ex_body :: attempt_body where
  "ex_body = \<lparr>body_topic = Val ''js'', body_score = Val 0, totalQuestions = Val 5,
              correctAnswers = Val 0, durationMinutes = Absent, confidenceScore = Null,
              facialExpressionScore = Val (1 / 2)\<rparr>"

text \<open>Requests of users 7 and 9 for the examples, starting from an empty usage table.\<close>

definition ex_db_fresh :: db where
  "ex_db_fresh = ex_db\<lparr>question_usage := []\<rparr>"

definition ex_reqs :: "request list" where
  "ex_reqs =
     [\<lparr>req_user = 7, req_topic = ''js'', req_count = Some ''2'', req_rnd = ex_rnd\<rparr>,
      \<lparr>req_user = 9, req_topic = ''js'', req_count = None, req_rnd = ex_rnd_rev\<rparr>,
      \<lparr>req_user = 7, req_topic = ''js'', req_count = Some ''2'', req_rnd = ex_rnd_rev\<rparr>,
      \<lparr>req_user = 7, req_topic = ''js'', req_count = Some ''2'', req_rnd = ex_rnd\<rparr>]"

text \<open>One attempt of user 7, with score 0, and one of user 9; user 3 has none.\<close>

definition ex_db_attempts :: db where
  "ex_db_attempts =
     ex_db\<lparr>interview_attempts :=
       [\<lparr>attempt_id = 1, user_id = 7, topic = Some ''js'', score = Some 0,
         total_questions = Some 5, correct_answers = Some 0, duration_minutes = None,
         confidence_score = None, facial_expression_score = None, attempt_date = 100\<rparr>,
        \<lparr>attempt_id = 2, user_id = 9, topic = Some ''sql'', score = Some 80,
         total_questions = Some 5, correct_answers = Some 4, duration_minutes = Some 12,
         confidence_score = Some 70, facial_expression_score = None, attempt_date = 200\<rparr>]\<rparr>"

section \<open>Properties of the question rotation\<close>

lemmas ex_defs =
  ex_db_def ex_db_one_used_def ex_db_all_used_def ex_db_fresh_def
  ex_q1_def ex_q2_def ex_q3_def ex_q4_def ex_rnd_def ex_rnd_rev_def

lemmas parse_defs =
  parse_count_def js_parseInt_def is_ws_def is_digit_def digit_val_def digits_value_def
  nearest_double_def

subsection \<open>The random order is a permutation\<close>

lemma mset_order_by_random: "mset (order_by_random rnd rows) = mset rows"
proof -
  have "mset (map snd (sort_key fst (zip (map rnd [0..<length rows]) rows)))
        = mset (map snd (zip (map rnd [0..<length rows]) rows))"
    by (simp only: mset_map mset_sort)
  also have "\<dots> = mset rows" by simp
  finally show ?thesis by (simp add: order_by_random_def)
qed

lemma set_order_by_random [simp]: "set (order_by_random rnd rows) = set rows"
  by (metis mset_order_by_random set_mset_mset)

lemma length_order_by_random [simp]: "length (order_by_random rnd rows) = length rows"
  by (metis mset_order_by_random size_mset)

lemma distinct_order_by_random [simp]: "distinct (order_by_random rnd rows) = distinct rows"
  by (rule mset_eq_imp_distinct_iff) (rule mset_order_by_random)

lemma filter_eq_single:
  "distinct xs \<Longrightarrow> x \<in> set xs \<Longrightarrow> filter (\<lambda>y. x = y) xs = [x]"
  by (induction xs) (auto simp: filter_empty_conv)

text \<open>
  And every order of distinct rows is the result of \<open>order_by_random\<close> for some keys: a
  theorem about all keys is a theorem about all outcomes of \<^verbatim>\<open>ORDER BY RANDOM()\<close>.
\<close>

lemma order_by_random_any_order:
  assumes dis: "distinct rows" and perm: "mset ys = mset rows"
  shows "\<exists>rnd. order_by_random rnd rows = ys"
proof -
  let ?n = "length ys"
  let ?g = "the_inv_into {..<?n} ((!) ys)"
  let ?key = "\<lambda>x. (int (?g x), x)"
  let ?rnd = "\<lambda>i. int (?g (rows ! i))"
  have len: "length rows = ?n" using perm by (metis size_mset)
  have dys: "distinct ys" using dis perm by (metis mset_eq_imp_distinct_iff)
  have sets: "set ys = set rows" using perm by (metis set_mset_mset)
  have inj: "inj_on ((!) ys) {..<?n}" using dys by (simp add: inj_on_nth)
  have g: "?g (ys ! i) = i" if "i < ?n" for i
    using inj that by (simp add: the_inv_into_f_f)
  have ginj: "x = y" if "x \<in> set ys" "y \<in> set ys" "?g x = ?g y" for x y
  proof -
    from that(1) obtain i where i: "i < ?n" "ys ! i = x" by (auto simp: in_set_conv_nth)
    from that(2) obtain j where j: "j < ?n" "ys ! j = y" by (auto simp: in_set_conv_nth)
    from that(3) i j g[of i] g[of j] show ?thesis by auto
  qed
  have keys: "map ?rnd [0..<length rows] = map (\<lambda>x. int (?g x)) rows"
    by (rule nth_equalityI) simp_all
  have xs: "zip (map ?rnd [0..<length rows]) rows = map ?key rows"
    unfolding keys by (simp add: zip_map1 zip_same_conv_map)
  have m: "mset (map ?key ys) = mset (map ?key rows)" using perm by simp
  have "map fst (map ?key ys) = map int [0..<?n]"
    by (rule nth_equalityI) (simp_all add: g)
  then have srt: "sorted (map fst (map ?key ys))"
    by (simp add: sorted_map sorted_wrt_map del: map_map)
  have dk: "distinct (map ?key ys)" "distinct (map ?key rows)"
    using dys dis by (simp_all add: distinct_map inj_on_def)
  have flt: "filter (\<lambda>x. fst k = fst x) (map ?key ys) = filter (\<lambda>x. fst k = fst x) (map ?key rows)"
    if k: "k \<in> set (map ?key ys)" for k
  proof -
    have eq: "(fst k = fst p) = (k = p)" if "p \<in> set (map ?key ys)" for p
      using k that ginj by auto
    have "filter (\<lambda>x. fst k = fst x) (map ?key ys) = filter (\<lambda>x. k = x) (map ?key ys)"
      by (rule filter_cong[OF refl]) (rule eq)
    also have "\<dots> = [k]" using dk(1) k by (rule filter_eq_single)
    also have "\<dots> = filter (\<lambda>x. k = x) (map ?key rows)"
      using dk(2) k sets by (intro filter_eq_single[symmetric]) auto
    also have "\<dots> = filter (\<lambda>x. fst k = fst x) (map ?key rows)"
      by (rule filter_cong[OF refl]) (use eq sets in auto)
    finally show ?thesis .
  qed
  have "sort_key fst (map ?key rows) = map ?key ys"
    using m flt srt by (rule properties_for_sort_key)
  then have "order_by_random ?rnd rows = ys"
    by (simp add: order_by_random_def xs o_def)
  then show ?thesis by blast
qed

subsection \<open>Counting used and unused questions\<close>

lemma set_used_ids:
  "set [q_id q. q \<leftarrow> questions d, qu \<leftarrow> question_usage d,
                q_id q = qu_question_id qu, q_topic q = t \<and> qu_user_id qu = u]
   = q_id ` set (filter (\<lambda>q. q_topic q = t \<and>
                 q_id q \<in> set (map qu_question_id (filter (\<lambda>qu. qu_user_id qu = u) (question_usage d))))
            (questions d))"
  by (auto simp: image_iff) (metis (no_types))

lemma used_count_eq:
  assumes "distinct (map q_id (questions d))"
  shows "used_count d t u = length (filter (\<lambda>q. q_topic q = t \<and>
                 q_id q \<in> set (map qu_question_id (filter (\<lambda>qu. qu_user_id qu = u) (question_usage d))))
            (questions d))"
proof -
  let ?P = "\<lambda>q. q_topic q = t \<and>
                 q_id q \<in> set (map qu_question_id (filter (\<lambda>qu. qu_user_id qu = u) (question_usage d)))"
  have "used_count d t u = card (q_id ` set (filter ?P (questions d)))"
    unfolding used_count_def length_remdups_card_conv set_used_ids ..
  also have "\<dots> = card (set (map q_id (filter ?P (questions d))))" by simp
  also have "\<dots> = length (map q_id (filter ?P (questions d)))"
    using assms by (intro distinct_card distinct_map_filter)
  finally show ?thesis by simp
qed

lemma used_plus_unused:
  assumes "distinct (map q_id (questions d))"
  shows "used_count d t u + length (unused_questions d t u) = total_questions_of d t"
proof -
  let ?U = "set (map qu_question_id (filter (\<lambda>qu. qu_user_id qu = u) (question_usage d)))"
  let ?T = "filter (\<lambda>q. q_topic q = t) (questions d)"
  have a: "filter (\<lambda>q. q_topic q = t \<and> q_id q \<in> ?U) (questions d) = filter (\<lambda>q. q_id q \<in> ?U) ?T"
    by (simp add: conj_commute)
  have b: "unused_questions d t u = filter (\<lambda>q. \<not> q_id q \<in> ?U) ?T"
    by (simp add: unused_questions_def conj_commute)
  show ?thesis
    unfolding used_count_eq[OF assms] a b total_questions_of_def
    by (rule sum_length_filter_compl)
qed

lemma distinct_map_subset:
  "distinct (map f ys) \<Longrightarrow> distinct xs \<Longrightarrow> set xs \<subseteq> set ys \<Longrightarrow> distinct (map f xs)"
  by (auto simp: distinct_map intro: inj_on_subset)

lemma distinct_unused:
  "distinct (map q_id (questions d)) \<Longrightarrow> distinct (unused_questions d t u)"
  by (simp add: unused_questions_def distinct_map)

lemma unused_subset: "set (unused_questions d t u) \<subseteq> set (questions d)"
  by (auto simp: unused_questions_def)

subsection \<open>What a request leaves of the tables\<close>

lemma parse_count_one: "parse_count (Some ''1'') = Num 1"
  by (simp add: parse_defs)

lemma sql_limit_Num:
  "0 \<le> k \<Longrightarrow> k < 2 ^ 63 \<Longrightarrow> sql_limit (Num k) rows = Some (take (nat k) rows)"
  by (simp add: sql_limit_def)

lemma questions_reset_usage [simp]: "questions (reset_usage d u t) = questions d"
  by (simp add: reset_usage_def)

lemma questions_getRandomQuestions [simp]:
  "questions (snd (getRandomQuestions d u t cnt rnd)) = questions d"
  by (simp add: getRandomQuestions_def split: option.splits)

lemma questions_get_questions [simp]:
  "questions (snd (get_questions d u t cnt rnd)) = questions d"
  by (simp add: get_questions_def Let_def)

lemma unused_insertUsage:
  "unused_questions (d\<lparr>question_usage := insertUsage u qs (question_usage d)\<rparr>) t u
   = filter (\<lambda>q. q_id q \<notin> q_id ` set qs) (unused_questions d t u)"
  by (auto simp: unused_questions_def insertUsage_def image_iff intro!: filter_cong)

lemma unused_reset_usage:
  "unused_questions (reset_usage d u t) t u = filter (\<lambda>q. q_topic q = t) (questions d)"
  by (auto simp: unused_questions_def reset_usage_def image_iff intro!: filter_cong)

lemma unused_reset_length:
  "length (unused_questions (reset_usage d u t) t u) = total_questions_of d t"
  by (simp add: unused_reset_usage total_questions_of_def)

text \<open>A draw of one question while the user has a question of the topic left.\<close>

lemma get_questions_one:
  assumes ids: "distinct (map q_id (questions d))"
    and left: "unused_questions d t u \<noteq> []"
  shows "\<exists>q. q \<in> set (unused_questions d t u) \<and>
           get_questions d u t (Some ''1'') rnd
           = (Inr [q], d\<lparr>question_usage := insertUsage u [q] (question_usage d)\<rparr>)"
proof -
  from left have "0 < length (unused_questions d t u)" by simp
  with used_plus_unused[OF ids, of t u] have lt: "used_count d t u < total_questions_of d t"
    by linarith
  let ?r = "order_by_random rnd (unused_questions d t u)"
  from left have "?r \<noteq> []" by (metis length_order_by_random length_0_conv)
  then obtain q r where r: "?r = q # r" by (cases ?r) auto
  then have "q \<in> set ?r" by simp
  then have q: "q \<in> set (unused_questions d t u)" by simp
  have "get_questions d u t (Some ''1'') rnd
        = (Inr [q], d\<lparr>question_usage := insertUsage u [q] (question_usage d)\<rparr>)"
    using lt r by (simp add: get_questions_def getRandomQuestions_def parse_count_one sql_limit_Num)
  with q show ?thesis by blast
qed

lemma unused_after_one:
  assumes ids: "distinct (map q_id (questions d))" and q: "q \<in> set (unused_questions d t u)"
  shows "unused_questions (d\<lparr>question_usage := insertUsage u [q] (question_usage d)\<rparr>) t u
         = removeAll q (unused_questions d t u)"
proof -
  have inj: "inj_on q_id (set (questions d))" using ids by (simp add: distinct_map)
  have "filter (\<lambda>q'. q_id q' \<notin> q_id ` set [q]) (unused_questions d t u)
        = filter ((\<noteq>) q) (unused_questions d t u)"
    using q unused_subset[of d t u] inj by (intro filter_cong) (auto dest: inj_onD)
  then show ?thesis by (simp add: unused_insertUsage removeAll_filter_not_eq)
qed

lemma length_removeAll_distinct:
  "distinct xs \<Longrightarrow> x \<in> set xs \<Longrightarrow> length (removeAll x xs) = length xs - 1"
  by (simp add: distinct_remove1_removeAll[symmetric] length_remove1)

lemma draws_single:
  assumes "distinct (map q_id (questions d))"
    and "length rnds \<le> length (unused_questions d t u)"
  shows "\<exists>qs. fst (draws d u t (Some ''1'') rnds) = map (\<lambda>q. Inr [q]) qs \<and> distinct qs \<and>
              set qs \<subseteq> set (unused_questions d t u) \<and> length qs = length rnds"
  using assms
proof (induction rnds arbitrary: d)
  case Nil
  then show ?case by simp
next
  case (Cons rnd rnds)
  then have left: "unused_questions d t u \<noteq> []" by auto
  from get_questions_one[OF Cons.prems(1) left, of rnd] obtain q where
    q: "q \<in> set (unused_questions d t u)" and
    g: "get_questions d u t (Some ''1'') rnd
        = (Inr [q], d\<lparr>question_usage := insertUsage u [q] (question_usage d)\<rparr>)"
    by blast
  let ?d = "d\<lparr>question_usage := insertUsage u [q] (question_usage d)\<rparr>"
  have un: "unused_questions ?d t u = removeAll q (unused_questions d t u)"
    by (rule unused_after_one[OF Cons.prems(1) q])
  have "length (removeAll q (unused_questions d t u)) = length (unused_questions d t u) - 1"
    using distinct_unused[OF Cons.prems(1)] q by (rule length_removeAll_distinct)
  with Cons.prems(2) un have len: "length rnds \<le> length (unused_questions ?d t u)" by simp
  have ids: "distinct (map q_id (questions ?d))" using Cons.prems(1) by simp
  from Cons.IH[OF ids len] obtain qs where
    qs: "fst (draws ?d u t (Some ''1'') rnds) = map (\<lambda>q. Inr [q]) qs" "distinct qs"
        "set qs \<subseteq> set (unused_questions ?d t u)" "length qs = length rnds"
    by blast
  from qs(3) un have sub: "set qs \<subseteq> set (unused_questions d t u) - {q}" by auto
  have "fst (draws d u t (Some ''1'') (rnd # rnds)) = map (\<lambda>q. Inr [q]) (q # qs)"
    using g qs(1) by (auto split: prod.splits)
  moreover have "distinct (q # qs)" using qs(2) sub by auto
  moreover have "set (q # qs) \<subseteq> set (unused_questions d t u)" using q sub by auto
  moreover have "length (q # qs) = length (rnd # rnds)" using qs(4) by simp
  ultimately show ?case by blast
qed

text \<open>
  Claim C1 (rotation completeness). The question ids are a key, the user's ledger holds no
  question of the topic, and the topic has \<open>N\<close> questions. Then \<open>N\<close> requests for one
  question each, one after the other and whatever the random orders are, all succeed with
  exactly one question, and the \<open>N\<close> questions returned are a permutation of the topic's
  catalog: as multisets they are equal, so no question repeats and none is left out.
\<close>

theorem rotation_completeness:
  assumes ids: "distinct (map q_id (questions d))"
    and empty: "used_count d t u = 0"
    and n: "length rnds = total_questions_of d t"
  shows "\<exists>qs. fst (draws d u t (Some ''1'') rnds) = map (\<lambda>q. Inr [q]) qs \<and>
              mset qs = mset (filter (\<lambda>q. q_topic q = t) (questions d))"
proof -
  let ?T = "filter (\<lambda>q. q_topic q = t) (questions d)"
  from used_plus_unused[OF ids, of t u] empty n
  have len: "length rnds = length (unused_questions d t u)" by simp
  from draws_single[OF ids, of rnds t u] len obtain qs where
    qs: "fst (draws d u t (Some ''1'') rnds) = map (\<lambda>q. Inr [q]) qs" "distinct qs"
        "set qs \<subseteq> set (unused_questions d t u)" "length qs = length rnds"
    by auto
  have T: "distinct ?T" using ids by (simp add: distinct_map)
  have "set qs \<subseteq> set ?T" using qs(3) by (auto simp: unused_questions_def)
  moreover have "card (set ?T) \<le> card (set qs)"
    unfolding distinct_card[OF qs(2)] distinct_card[OF T]
    using qs(4) n by (simp add: total_questions_of_def)
  ultimately have "set qs = set ?T" by (intro card_seteq) auto
  with qs(2) T have "mset qs = mset ?T" by (simp only: set_eq_iff_mset_eq_distinct)
  with qs(1) show ?thesis by blast
qed

theorem rotation_completeness_witness:
  "distinct (map q_id (questions ex_db)) \<and> used_count ex_db ''js'' 7 = 0 \<and>
   length [ex_rnd, ex_rnd_rev, ex_rnd] = total_questions_of ex_db ''js'' \<and>
   (\<exists>qs. fst (draws ex_db 7 ''js'' (Some ''1'') [ex_rnd, ex_rnd_rev, ex_rnd])
           = map (\<lambda>q. Inr [q]) qs \<and>
         mset qs = mset (filter (\<lambda>q. q_topic q = ''js'') (questions ex_db)))"
proof -
  have h1: "distinct (map q_id (questions ex_db))" by (simp add: ex_defs)
  have h2: "used_count ex_db ''js'' 7 = 0" by (simp add: ex_defs used_count_def)
  have h3: "length [ex_rnd, ex_rnd_rev, ex_rnd] = total_questions_of ex_db ''js''"
    by (simp add: ex_defs total_questions_of_def)
  from rotation_completeness[OF h1 h2 h3] h1 h2 h3 show ?thesis by blast
qed

subsection \<open>The size of a result\<close>

lemma getRandomQuestions_Num:
  assumes "parse_count cnt = Num n" "0 \<le> n" "n < 2 ^ 63"
  shows "getRandomQuestions d u t cnt rnd
         = (Inr (take (nat n) (order_by_random rnd (unused_questions d t u))),
            d\<lparr>question_usage :=
                insertUsage u (take (nat n) (order_by_random rnd (unused_questions d t u)))
                  (question_usage d)\<rparr>)"
  using assms by (simp add: getRandomQuestions_def sql_limit_Num)

lemma drawn_props:
  assumes ids: "distinct (map q_id (questions d))"
  shows "distinct (take k (order_by_random rnd (unused_questions d t u)))"
    and "set (take k (order_by_random rnd (unused_questions d t u))) \<subseteq> set (unused_questions d t u)"
    and "length (take k (order_by_random rnd (unused_questions d t u)))
         = min k (length (unused_questions d t u))"
proof -
  show "distinct (take k (order_by_random rnd (unused_questions d t u)))"
    using distinct_unused[OF ids, of t u] by simp
  show "set (take k (order_by_random rnd (unused_questions d t u))) \<subseteq> set (unused_questions d t u)"
    using set_take_subset[of k "order_by_random rnd (unused_questions d t u)"] by simp
  show "length (take k (order_by_random rnd (unused_questions d t u)))
        = min k (length (unused_questions d t u))"
    by (simp add: min.commute)
qed

text \<open>
  Claim C2 (result size), as the code has it. The claim's size \<open>min(requestedCount, N(topic))\<close>
  fails when the user's cycle is under way: the draw is taken from the questions the user
  has not used yet, and nothing fills it up. What holds, for a count on which
  \<^verbatim>\<open>parseInt\<close> gives a number \<open>0 \<le> n < 2 ^ 63\<close> and question ids that are a key: the request succeeds, the
  questions returned are distinct questions of the topic, and their number is
  \<open>min n A\<close>, where \<open>A\<close> is \<open>N(topic)\<close> when the ledger is exhausted (which includes the
  empty topic) and \<open>N(topic) - usedCount\<close> otherwise. So a request for more than the topic
  holds returns \<open>A \<le> N(topic)\<close> questions without an error, and a topic without questions
  gives the empty result.
\<close>

theorem result_size:
  assumes ids: "distinct (map q_id (questions d))"
    and pc: "parse_count cnt = Num n" and n0: "0 \<le> n" and n63: "n < 2 ^ 63"
  shows "\<exists>qs. fst (get_questions d u t cnt rnd) = Inr qs \<and> distinct qs \<and>
              set qs \<subseteq> set (filter (\<lambda>q. q_topic q = t) (questions d)) \<and>
              length qs = min (nat n)
                (if total_questions_of d t \<le> used_count d t u then total_questions_of d t
                 else total_questions_of d t - used_count d t u)"
proof (cases "total_questions_of d t \<le> used_count d t u")
  case True
  let ?d = "reset_usage d u t"
  let ?qs = "take (nat n) (order_by_random rnd (unused_questions ?d t u))"
  have ids': "distinct (map q_id (questions ?d))" using ids by simp
  have "fst (get_questions d u t cnt rnd) = Inr ?qs"
    using True by (simp add: get_questions_def getRandomQuestions_Num[OF pc n0 n63])
  moreover have "distinct ?qs" by (rule drawn_props(1)[OF ids'])
  moreover have "set ?qs \<subseteq> set (filter (\<lambda>q. q_topic q = t) (questions d))"
    using drawn_props(2)[OF ids', of "nat n" rnd t u] by (simp add: unused_reset_usage)
  moreover have "length ?qs = min (nat n) (total_questions_of d t)"
    using drawn_props(3)[OF ids', of "nat n" rnd t u] by (simp only: unused_reset_length)
  ultimately show ?thesis using True by auto
next
  case False
  let ?qs = "take (nat n) (order_by_random rnd (unused_questions d t u))"
  have "fst (get_questions d u t cnt rnd) = Inr ?qs"
    using False by (simp add: get_questions_def getRandomQuestions_Num[OF pc n0 n63])
  moreover have "distinct ?qs" by (rule drawn_props(1)[OF ids])
  moreover have "set ?qs \<subseteq> set (filter (\<lambda>q. q_topic q = t) (questions d))"
    using drawn_props(2)[OF ids, of "nat n" rnd t u] by (auto simp: unused_questions_def)
  moreover have "length (unused_questions d t u) = total_questions_of d t - used_count d t u"
    using used_plus_unused[OF ids, of t u] by linarith
  then have "length ?qs = min (nat n) (total_questions_of d t - used_count d t u)"
    using drawn_props(3)[OF ids, of "nat n" rnd t u] by simp
  ultimately show ?thesis using False by auto
qed

theorem result_size_witness:
  "distinct (map q_id (questions ex_db_one_used)) \<and> parse_count (Some ''3'') = Num 3 \<and>
   (0::int) \<le> 3 \<and> (3::int) < 2 ^ 63 \<and>
   (\<exists>qs. fst (get_questions ex_db_one_used 7 ''js'' (Some ''3'') ex_rnd) = Inr qs \<and> distinct qs \<and>
         set qs \<subseteq> set (filter (\<lambda>q. q_topic q = ''js'') (questions ex_db_one_used)) \<and>
         length qs = min (nat 3)
           (if total_questions_of ex_db_one_used ''js'' \<le> used_count ex_db_one_used ''js'' 7
            then total_questions_of ex_db_one_used ''js''
            else total_questions_of ex_db_one_used ''js'' - used_count ex_db_one_used ''js'' 7))"
proof -
  have h1: "distinct (map q_id (questions ex_db_one_used))" by (simp add: ex_defs)
  have h2: "parse_count (Some ''3'') = Num 3" by (simp add: parse_defs)
  have h3: "(0::int) \<le> 3" by simp
  have h4: "(3::int) < 2 ^ 63" by simp
  from result_size[OF h1 h2 h3 h4] h1 h2 h3 h4 show ?thesis by blast
qed

text \<open>
  The claim as written fails: topic js has three questions, user 7 has used one of them and
  asks for three. The request returns the two questions left, not \<open>min 3 3 = 3\<close>.
\<close>

theorem result_size_counterexample:
  "fst (get_questions ex_db_one_used 7 ''js'' (Some ''3'') ex_rnd) = Inr [ex_q2, ex_q3] \<and>
   parse_count (Some ''3'') = Num 3 \<and>
   total_questions_of ex_db_one_used ''js'' = 3 \<and>
   length [ex_q2, ex_q3] \<noteq> min 3 (total_questions_of ex_db_one_used ''js'')"
  by (simp add: ex_defs get_questions_def used_count_def total_questions_of_def
      getRandomQuestions_def parse_defs sql_limit_def order_by_random_def unused_questions_def)

subsection \<open>The reset\<close>

text \<open>
  Claim C3 (reset on exhaustion). The question ids are a key, the topic has at least one
  question, and the user's usage count for the topic has reached \<open>N(topic)\<close>. Then a request
  for one question deletes the user's rows for the topic, draws one question \<open>q\<close> of the
  topic and inserts its row: \<open>q\<close> is a question the user had in the ledger before the
  request, the only row the user has for the topic afterwards is the one of \<open>q\<close>, and the
  usage count afterwards is 1.
\<close>

theorem reset_on_exhaustion:
  assumes ids: "distinct (map q_id (questions d))"
    and full: "used_count d t u = total_questions_of d t"
    and ne: "0 < total_questions_of d t"
  shows "\<exists>q. get_questions d u t (Some ''1'') rnd
              = (Inr [q], (reset_usage d u t)\<lparr>question_usage :=
                    insertUsage u [q] (question_usage (reset_usage d u t))\<rparr>) \<and>
             q \<in> set (questions d) \<and> q_topic q = t \<and>
             q_id q \<in> set (map qu_question_id (filter (\<lambda>qu. qu_user_id qu = u) (question_usage d))) \<and>
             filter (\<lambda>qu. qu_user_id qu = u \<and>
                          qu_question_id qu \<in> set (map q_id (filter (\<lambda>q. q_topic q = t) (questions d))))
               (question_usage (snd (get_questions d u t (Some ''1'') rnd)))
             = [\<lparr>qu_user_id = u, qu_question_id = q_id q\<rparr>] \<and>
             used_count (snd (get_questions d u t (Some ''1'') rnd)) t u = 1"
proof -
  let ?d = "reset_usage d u t"
  let ?r = "order_by_random rnd (unused_questions ?d t u)"
  have ids': "distinct (map q_id (questions ?d))" using ids by simp
  have "length ?r = total_questions_of d t" by (simp add: unused_reset_length)
  with ne obtain q r where r: "?r = q # r" by (cases ?r) auto
  then have "q \<in> set ?r" by simp
  then have q: "q \<in> set (unused_questions ?d t u)" by simp
  then have qT: "q \<in> set (questions d)" "q_topic q = t" by (auto simp: unused_reset_usage)
  let ?d' = "?d\<lparr>question_usage := insertUsage u [q] (question_usage ?d)\<rparr>"
  have g: "get_questions d u t (Some ''1'') rnd = (Inr [q], ?d')"
    using full r by (simp add: get_questions_def getRandomQuestions_def parse_count_one sql_limit_Num)
  have "length (unused_questions d t u) = 0"
    using used_plus_unused[OF ids, of t u] full by simp
  then have "q \<notin> set (unused_questions d t u)" by simp
  with qT have seen:
    "q_id q \<in> set (map qu_question_id (filter (\<lambda>qu. qu_user_id qu = u) (question_usage d)))"
    by (simp add: unused_questions_def)
  have rows: "filter (\<lambda>qu. qu_user_id qu = u \<and>
                          qu_question_id qu \<in> set (map q_id (filter (\<lambda>q. q_topic q = t) (questions d))))
               (question_usage ?d') = [\<lparr>qu_user_id = u, qu_question_id = q_id q\<rparr>]"
    using qT by (auto simp: reset_usage_def insertUsage_def filter_empty_conv)
  have "unused_questions ?d' t u = removeAll q (unused_questions ?d t u)"
    by (rule unused_after_one[OF ids' q])
  moreover have "length (removeAll q (unused_questions ?d t u)) = length (unused_questions ?d t u) - 1"
    using distinct_unused[OF ids'] q by (rule length_removeAll_distinct)
  ultimately have "length (unused_questions ?d' t u) = total_questions_of d t - 1"
    by (simp add: unused_reset_length)
  moreover have "used_count ?d' t u + length (unused_questions ?d' t u) = total_questions_of ?d' t"
    by (rule used_plus_unused) (use ids in simp)
  moreover have "total_questions_of ?d' t = total_questions_of d t"
    by (simp add: total_questions_of_def)
  ultimately have "used_count ?d' t u = 1" using ne by linarith
  with g qT seen rows show ?thesis by (intro exI[of _ q]) (simp only: snd_conv simp_thms)
qed

theorem reset_on_exhaustion_witness:
  "distinct (map q_id (questions ex_db_all_used)) \<and>
   used_count ex_db_all_used ''js'' 7 = total_questions_of ex_db_all_used ''js'' \<and>
   0 < total_questions_of ex_db_all_used ''js'' \<and>
   used_count (snd (get_questions ex_db_all_used 7 ''js'' (Some ''1'') ex_rnd_rev)) ''js'' 7 = 1"
proof -
  have h1: "distinct (map q_id (questions ex_db_all_used))" by (simp add: ex_defs)
  have h2: "used_count ex_db_all_used ''js'' 7 = total_questions_of ex_db_all_used ''js''"
    by (simp add: ex_defs used_count_def total_questions_of_def)
  have h3: "0 < total_questions_of ex_db_all_used ''js''"
    by (simp add: ex_defs total_questions_of_def)
  from reset_on_exhaustion[OF h1 h2 h3, of ex_rnd_rev] h1 h2 h3 show ?thesis by blast
qed

subsection \<open>The usage ledger\<close>

lemma distinct_reset_usage:
  "distinct (question_usage d) \<Longrightarrow> distinct (question_usage (reset_usage d u t))"
  by (simp add: reset_usage_def)

lemma limit_rows:
  assumes "sql_limit n rows = Some qs"
  shows "distinct rows \<Longrightarrow> distinct qs" and "set qs \<subseteq> set rows"
proof -
  from assms have "qs = rows \<or> (\<exists>k. qs = take k rows)"
    by (auto simp: sql_limit_def split: js_number.splits if_splits)
  then show "distinct rows \<Longrightarrow> distinct qs" and "set qs \<subseteq> set rows"
    by (auto dest: in_set_takeD)
qed

text \<open>A draw inserts rows for questions that the user's ledger does not hold, each once.\<close>

lemma distinct_getRandomQuestions:
  assumes ids: "distinct (map q_id (questions d))" and dis: "distinct (question_usage d)"
  shows "distinct (question_usage (snd (getRandomQuestions d u t cnt rnd)))"
proof (cases "sql_limit (parse_count cnt) (order_by_random rnd (unused_questions d t u))")
  case None
  then show ?thesis using dis by (simp add: getRandomQuestions_def)
next
  case (Some qs)
  have dq: "distinct qs"
    using limit_rows(1)[OF Some] distinct_unused[OF ids, of t u] by simp
  have sub: "set qs \<subseteq> set (unused_questions d t u)"
    using limit_rows(2)[OF Some] by simp
  then have "set qs \<subseteq> set (questions d)" using unused_subset[of d t u] by blast
  with ids dq have "distinct (map q_id qs)" by (rule distinct_map_subset)
  then have new: "distinct (map (\<lambda>q. \<lparr>qu_user_id = u, qu_question_id = q_id q\<rparr>) qs)"
    by (simp add: distinct_map inj_on_def)
  have fresh: "\<lparr>qu_user_id = u, qu_question_id = q_id q\<rparr> \<notin> set (question_usage d)"
    if "q \<in> set qs" for q
  proof
    assume "\<lparr>qu_user_id = u, qu_question_id = q_id q\<rparr> \<in> set (question_usage d)"
    then have "q_id q \<in> set (map qu_question_id (filter (\<lambda>qu. qu_user_id qu = u) (question_usage d)))"
      by force
    moreover from that sub have "q \<in> set (unused_questions d t u)" by blast
    ultimately show False by (simp add: unused_questions_def)
  qed
  show ?thesis
    using Some dis new fresh by (auto simp: getRandomQuestions_def insertUsage_def)
qed

lemma distinct_get_questions:
  assumes "distinct (map q_id (questions d))" "distinct (question_usage d)"
  shows "distinct (question_usage (snd (get_questions d u t cnt rnd)))"
  using assms
  by (simp add: get_questions_def Let_def distinct_getRandomQuestions distinct_reset_usage)

lemma serve_distinct:
  assumes "distinct (map q_id (questions d))" "distinct (question_usage d)"
  shows "distinct (question_usage (serve d reqs))"
  using assms
proof (induction reqs arbitrary: d)
  case Nil
  then show ?case by simp
next
  case (Cons r reqs)
  show ?case
    unfolding serve.simps
    by (rule Cons.IH) (simp_all add: Cons.prems distinct_get_questions)
qed

text \<open>
  Claim C4 (usage pairs are unique). The question ids are a key and the usage table is
  empty. After any sequence of requests, one after the other, of any users, for any topics,
  with any counts and random orders, no row \<open>(user_id, question_id)\<close> stands twice in the
  usage table.
\<close>

theorem usage_pairs_unique:
  assumes "distinct (map q_id (questions d))" and "question_usage d = []"
  shows "distinct (question_usage (serve d reqs))"
  using assms by (intro serve_distinct) simp_all

theorem usage_pairs_unique_witness:
  "distinct (map q_id (questions ex_db_fresh)) \<and> question_usage ex_db_fresh = [] \<and>
   distinct (question_usage (serve ex_db_fresh ex_reqs))"
proof -
  have h1: "distinct (map q_id (questions ex_db_fresh))" by (simp add: ex_defs)
  have h2: "question_usage ex_db_fresh = []" by (simp add: ex_defs)
  from usage_pairs_unique[OF h1 h2, of ex_reqs] h1 h2 show ?thesis by blast
qed

lemma other_users_getRandomQuestions:
  "filter (\<lambda>qu. qu_user_id qu \<noteq> u) (question_usage (snd (getRandomQuestions d u t cnt rnd)))
   = filter (\<lambda>qu. qu_user_id qu \<noteq> u) (question_usage d)"
  by (simp add: getRandomQuestions_def insertUsage_def split: option.splits)

lemma other_users_reset_usage:
  "filter (\<lambda>qu. qu_user_id qu \<noteq> u) (question_usage (reset_usage d u t))
   = filter (\<lambda>qu. qu_user_id qu \<noteq> u) (question_usage d)"
  by (auto simp: reset_usage_def intro!: filter_cong)

lemma other_topic_reset_usage:
  assumes ids: "distinct (map q_id (questions d))" and other: "t' \<noteq> t"
  shows "filter (\<lambda>qu. qu_user_id qu = u \<and>
                   qu_question_id qu \<in> set (map q_id (filter (\<lambda>q. q_topic q = t') (questions d))))
           (question_usage (reset_usage d u t))
         = filter (\<lambda>qu. qu_user_id qu = u \<and>
                   qu_question_id qu \<in> set (map q_id (filter (\<lambda>q. q_topic q = t') (questions d))))
           (question_usage d)"
proof -
  have inj: "inj_on q_id (set (questions d))" using ids by (simp add: distinct_map)
  have key: "qu_question_id qu \<notin> set (map q_id (filter (\<lambda>q. q_topic q = t) (questions d)))"
    if "qu_question_id qu \<in> set (map q_id (filter (\<lambda>q. q_topic q = t') (questions d)))" for qu
  proof
    assume "qu_question_id qu \<in> set (map q_id (filter (\<lambda>q. q_topic q = t) (questions d)))"
    then obtain q where q: "q \<in> set (questions d)" "q_topic q = t" "q_id q = qu_question_id qu"
      by auto
    from that obtain q' where q': "q' \<in> set (questions d)" "q_topic q' = t'" "q_id q' = qu_question_id qu"
      by auto
    have "q_id q = q_id q'" using q(3) q'(3) by simp
    with inj q(1) q'(1) have "q = q'" by (simp add: inj_on_def)
    with q(2) q'(2) other show False by simp
  qed
  let ?P = "\<lambda>qu. \<not> (qu_user_id qu = u \<and>
                 qu_question_id qu \<in> set (map q_id (filter (\<lambda>q. q_topic q = t) (questions d))))"
  let ?Q = "\<lambda>qu. qu_user_id qu = u \<and>
                 qu_question_id qu \<in> set (map q_id (filter (\<lambda>q. q_topic q = t') (questions d)))"
  have "filter ?Q (filter ?P (question_usage d)) = filter (\<lambda>qu. ?P qu \<and> ?Q qu) (question_usage d)"
    by (simp only: filter_filter)
  also have "\<dots> = filter ?Q (question_usage d)"
    by (rule filter_cong[OF refl]) (use key in blast)
  finally show ?thesis by (simp add: reset_usage_def)
qed

text \<open>
  Claim C5 (frame of the reset). Every row the reset deletes has the requesting user's id
  and the id of a question of the topic. The rows of other users are the same before and
  after, in the same order; and, the question ids being a key, so are the rows of the same
  user for the questions of any other topic. The other two tables are not touched. The
  whole request, reset and draw together, leaves the rows of other users as they were.
\<close>

theorem reset_frame:
  assumes ids: "distinct (map q_id (questions d))" and other: "t' \<noteq> t"
  shows "(\<forall>qu\<in>set (question_usage d). qu \<notin> set (question_usage (reset_usage d u t)) \<longrightarrow>
            qu_user_id qu = u \<and>
            qu_question_id qu \<in> set (map q_id (filter (\<lambda>q. q_topic q = t) (questions d)))) \<and>
         filter (\<lambda>qu. qu_user_id qu \<noteq> u) (question_usage (reset_usage d u t))
         = filter (\<lambda>qu. qu_user_id qu \<noteq> u) (question_usage d) \<and>
         filter (\<lambda>qu. qu_user_id qu = u \<and>
                   qu_question_id qu \<in> set (map q_id (filter (\<lambda>q. q_topic q = t') (questions d))))
           (question_usage (reset_usage d u t))
         = filter (\<lambda>qu. qu_user_id qu = u \<and>
                   qu_question_id qu \<in> set (map q_id (filter (\<lambda>q. q_topic q = t') (questions d))))
           (question_usage d) \<and>
         questions (reset_usage d u t) = questions d \<and>
         interview_attempts (reset_usage d u t) = interview_attempts d \<and>
         filter (\<lambda>qu. qu_user_id qu \<noteq> u) (question_usage (snd (get_questions d u t cnt rnd)))
         = filter (\<lambda>qu. qu_user_id qu \<noteq> u) (question_usage d)"
proof -
  have del: "\<forall>qu\<in>set (question_usage d). qu \<notin> set (question_usage (reset_usage d u t)) \<longrightarrow>
            qu_user_id qu = u \<and>
            qu_question_id qu \<in> set (map q_id (filter (\<lambda>q. q_topic q = t) (questions d)))"
    by (simp add: reset_usage_def)
  have tabs: "questions (reset_usage d u t) = questions d"
             "interview_attempts (reset_usage d u t) = interview_attempts d"
    by (simp_all add: reset_usage_def)
  have whole: "filter (\<lambda>qu. qu_user_id qu \<noteq> u) (question_usage (snd (get_questions d u t cnt rnd)))
         = filter (\<lambda>qu. qu_user_id qu \<noteq> u) (question_usage d)"
    by (simp add: get_questions_def Let_def other_users_getRandomQuestions other_users_reset_usage)
  from del other_users_reset_usage[of u d t] other_topic_reset_usage[OF ids other, of u] tabs whole
  show ?thesis by (intro conjI)
qed

theorem reset_frame_witness:
  "distinct (map q_id (questions ex_db_all_used)) \<and> ''sql'' \<noteq> ''js'' \<and>
   filter (\<lambda>qu. qu_user_id qu \<noteq> 7) (question_usage (reset_usage ex_db_all_used 7 ''js''))
   = filter (\<lambda>qu. qu_user_id qu \<noteq> 7) (question_usage ex_db_all_used) \<and>
   filter (\<lambda>qu. qu_user_id qu = 7 \<and>
             qu_question_id qu \<in> set (map q_id (filter (\<lambda>q. q_topic q = ''sql'') (questions ex_db_all_used))))
     (question_usage (reset_usage ex_db_all_used 7 ''js''))
   = filter (\<lambda>qu. qu_user_id qu = 7 \<and>
             qu_question_id qu \<in> set (map q_id (filter (\<lambda>q. q_topic q = ''sql'') (questions ex_db_all_used))))
     (question_usage ex_db_all_used)"
proof -
  have h1: "distinct (map q_id (questions ex_db_all_used))" by (simp add: ex_defs)
  have h2: "''sql'' \<noteq> ''js''" by simp
  from reset_frame[OF h1 h2, of 7 None ex_rnd] h1 h2 show ?thesis by blast
qed

section \<open>Properties of the attempts and the analytics\<close>

subsection \<open>Validation of an attempt\<close>

lemma rejected_iff:
  "(fst (post_attempts c now d u body) = Inl (Error 400 ''Missing required fields''))
   = (falsy_string (body_topic body) \<or> body_score body = Absent \<or>
      falsy_number (totalQuestions body) \<or> correctAnswers body = Absent)"
  by (simp add: post_attempts_def Let_def)

lemma falsy_string_iff: "falsy_string x = (x = Absent \<or> x = Null \<or> x = Val [])"
  by (cases x) (simp_all add: falsy_string_def)

lemma falsy_number_iff: "falsy_number x = (x = Absent \<or> x = Null \<or> x = Val 0)"
  by (cases x) (simp_all add: falsy_number_def)

lemma validation_error_iff:
  "is_validation_error (fst (post_attempts c now d u body))
   = (fst (post_attempts c now d u body) = Inl (Error 400 ''Missing required fields''))"
  by (simp add: post_attempts_def Let_def is_validation_error_def)

text \<open>
  Claim C6 (attempt validation), as the code has it. The claim's "exactly when a required
  field is absent or null" fails: the check is \<^verbatim>\<open>!topic || score === undefined ||
  !totalQuestions || correctAnswers === undefined\<close>, so a present \<^verbatim>\<open>totalQuestions\<close> of 0 and
  a present empty \<^verbatim>\<open>topic\<close> are rejected as well. What holds, for a body whose \<^verbatim>\<open>score\<close>
  and \<^verbatim>\<open>correctAnswers\<close> are not \<^verbatim>\<open>null\<close> and for every table: the request is rejected with
  a validation error exactly when \<^verbatim>\<open>topic\<close> is absent, null or empty, \<^verbatim>\<open>score\<close> is absent,
  \<^verbatim>\<open>totalQuestions\<close> is absent, null or 0, or \<^verbatim>\<open>correctAnswers\<close> is absent; a rejected
  request leaves the database as it was. A request with \<^verbatim>\<open>correctAnswers\<close> 0 that passes the
  check is stored when the table's constraints accept its row: the table gains exactly
  that row, which is the caller's and has \<^verbatim>\<open>correct_answers\<close> 0. When the constraints refuse
  the row of a request that passed the check, the answer is the storage error with status
  500 and nothing is stored.
\<close>

theorem attempt_validation:
  assumes "body_score body \<noteq> Null" and "correctAnswers body \<noteq> Null"
  shows "(is_validation_error (fst (post_attempts c now d u body))
          = (body_topic body = Absent \<or> body_topic body = Null \<or> body_topic body = Val [] \<or>
             body_score body = Absent \<or>
             totalQuestions body = Absent \<or> totalQuestions body = Null \<or> totalQuestions body = Val 0 \<or>
             correctAnswers body = Absent)) \<and>
         (is_validation_error (fst (post_attempts c now d u body)) \<longrightarrow>
            post_attempts c now d u body = (Inl (Error 400 ''Missing required fields''), d)) \<and>
         (correctAnswers body = Val 0 \<and> \<not> is_validation_error (fst (post_attempts c now d u body)) \<and>
          c (inserted_row now d u body) \<longrightarrow>
            post_attempts c now d u body
              = (Inr \<lparr>saved_id = lastID (interview_attempts d),
                      message = ''Attempt saved successfully''\<rparr>,
                 d\<lparr>interview_attempts := interview_attempts d @ [inserted_row now d u body]\<rparr>) \<and>
            user_id (inserted_row now d u body) = u \<and>
            correct_answers (inserted_row now d u body) = Some 0) \<and>
         (\<not> is_validation_error (fst (post_attempts c now d u body)) \<and>
          \<not> c (inserted_row now d u body) \<longrightarrow>
            post_attempts c now d u body = (Inl (Error 500 ''Database error''), d))"
proof -
  have a: "is_validation_error (fst (post_attempts c now d u body))
          = (body_topic body = Absent \<or> body_topic body = Null \<or> body_topic body = Val [] \<or>
             body_score body = Absent \<or>
             totalQuestions body = Absent \<or> totalQuestions body = Null \<or> totalQuestions body = Val 0 \<or>
             correctAnswers body = Absent)"
    unfolding validation_error_iff rejected_iff falsy_string_iff falsy_number_iff by blast
  have b: "is_validation_error (fst (post_attempts c now d u body)) \<longrightarrow>
            post_attempts c now d u body = (Inl (Error 400 ''Missing required fields''), d)"
    unfolding validation_error_iff rejected_iff by (simp add: post_attempts_def)
  have s: "correctAnswers body = Val 0 \<and> \<not> is_validation_error (fst (post_attempts c now d u body)) \<and>
          c (inserted_row now d u body) \<longrightarrow>
            post_attempts c now d u body
              = (Inr \<lparr>saved_id = lastID (interview_attempts d),
                      message = ''Attempt saved successfully''\<rparr>,
                 d\<lparr>interview_attempts := interview_attempts d @ [inserted_row now d u body]\<rparr>) \<and>
            user_id (inserted_row now d u body) = u \<and>
            correct_answers (inserted_row now d u body) = Some 0"
    unfolding validation_error_iff rejected_iff
    by (simp add: post_attempts_def Let_def inserted_row_def to_sql_def)
  have f: "\<not> is_validation_error (fst (post_attempts c now d u body)) \<and>
          \<not> c (inserted_row now d u body) \<longrightarrow>
            post_attempts c now d u body = (Inl (Error 500 ''Database error''), d)"
    unfolding validation_error_iff rejected_iff
    by (simp add: post_attempts_def Let_def inserted_row_def)
  from a b s f show ?thesis by (intro conjI)
qed

text \<open>
  The claim as written fails: no required field of this body is absent or null, and
  \<^verbatim>\<open>correctAnswers\<close> is 0, yet the request is rejected, \<^verbatim>\<open>totalQuestions\<close> being 0.
\<close>

theorem attempt_validation_counterexample:
  "post_attempts no_constraints 0 ex_db 7 (ex_body\<lparr>totalQuestions := Val 0\<rparr>)
     = (Inl (Error 400 ''Missing required fields''), ex_db) \<and>
   body_topic (ex_body\<lparr>totalQuestions := Val 0\<rparr>) = Val ''js'' \<and>
   body_score (ex_body\<lparr>totalQuestions := Val 0\<rparr>) = Val 0 \<and>
   totalQuestions (ex_body\<lparr>totalQuestions := Val 0\<rparr>) = Val 0 \<and>
   correctAnswers (ex_body\<lparr>totalQuestions := Val 0\<rparr>) = Val 0"
  by (simp add: post_attempts_def ex_body_def falsy_string_def falsy_number_def)

theorem attempt_validation_witness:
  "body_score ex_body \<noteq> Null \<and> correctAnswers ex_body \<noteq> Null \<and>
   correctAnswers ex_body = Val 0 \<and>
   \<not> is_validation_error (fst (post_attempts required_not_null 0 ex_db 7 ex_body)) \<and>
   required_not_null (inserted_row 0 ex_db 7 ex_body) \<and>
   post_attempts required_not_null 0 ex_db 7 ex_body
     = (Inr \<lparr>saved_id = lastID (interview_attempts ex_db),
             message = ''Attempt saved successfully''\<rparr>,
        ex_db\<lparr>interview_attempts := interview_attempts ex_db @ [inserted_row 0 ex_db 7 ex_body]\<rparr>) \<and>
   user_id (inserted_row 0 ex_db 7 ex_body) = 7 \<and>
   correct_answers (inserted_row 0 ex_db 7 ex_body) = Some 0"
proof -
  have h1: "body_score ex_body \<noteq> Null" by (simp add: ex_body_def)
  have h2: "correctAnswers ex_body \<noteq> Null" by (simp add: ex_body_def)
  have h3: "correctAnswers ex_body = Val 0" by (simp add: ex_body_def)
  have h4: "required_not_null (inserted_row 0 ex_db 7 ex_body)"
    by (simp add: required_not_null_def inserted_row_def ex_body_def to_sql_def)
  have h5: "\<not> (body_topic ex_body = Absent \<or> body_topic ex_body = Null \<or> body_topic ex_body = Val [] \<or>
             body_score ex_body = Absent \<or>
             totalQuestions ex_body = Absent \<or> totalQuestions ex_body = Null \<or> totalQuestions ex_body = Val 0 \<or>
             correctAnswers ex_body = Absent)" by (simp add: ex_body_def)
  from attempt_validation[OF h1 h2, of required_not_null 0 ex_db 7] h1 h2 h3 h4 h5
  show ?thesis by blast
qed

text \<open>
  Claim C10 (falsy values count as missing). A body whose \<^verbatim>\<open>totalQuestions\<close> is 0, or
  whose \<^verbatim>\<open>topic\<close> is the empty string, is rejected with the error of the missing
  fields, whatever the other fields are, and the database stays as it was. A \<^verbatim>\<open>score\<close> of
  0 and a \<^verbatim>\<open>correctAnswers\<close> of 0 are not rejected: these two are compared with
  \<^verbatim>\<open>undefined\<close> only.
\<close>

theorem falsy_fields_rejected:
  "(totalQuestions body = Val 0 \<or> body_topic body = Val [] \<longrightarrow>
      post_attempts c now d u body = (Inl (Error 400 ''Missing required fields''), d)) \<and>
   (body_score body = Val 0 \<and> correctAnswers body = Val 0 \<and>
    \<not> falsy_string (body_topic body) \<and> \<not> falsy_number (totalQuestions body) \<longrightarrow>
      fst (post_attempts c now d u body) \<noteq> Inl (Error 400 ''Missing required fields''))"
proof -
  have rejected: "totalQuestions body = Val 0 \<or> body_topic body = Val [] \<longrightarrow>
      post_attempts c now d u body = (Inl (Error 400 ''Missing required fields''), d)"
    by (auto simp: post_attempts_def falsy_string_def falsy_number_def)
  have zero_passes: "body_score body = Val 0 \<and> correctAnswers body = Val 0 \<and>
    \<not> falsy_string (body_topic body) \<and> \<not> falsy_number (totalQuestions body) \<longrightarrow>
      fst (post_attempts c now d u body) \<noteq> Inl (Error 400 ''Missing required fields'')"
    by (simp add: rejected_iff)
  from rejected zero_passes show ?thesis by (intro conjI)
qed

theorem falsy_fields_rejected_witness:
  "totalQuestions (ex_body\<lparr>totalQuestions := Val 0\<rparr>) = Val 0 \<and>
   post_attempts no_constraints 0 ex_db 7 (ex_body\<lparr>totalQuestions := Val 0\<rparr>)
     = (Inl (Error 400 ''Missing required fields''), ex_db) \<and>
   body_topic (ex_body\<lparr>body_topic := Val []\<rparr>) = Val [] \<and>
   post_attempts no_constraints 0 ex_db 7 (ex_body\<lparr>body_topic := Val []\<rparr>)
     = (Inl (Error 400 ''Missing required fields''), ex_db) \<and>
   body_score ex_body = Val 0 \<and> correctAnswers ex_body = Val 0 \<and>
   fst (post_attempts no_constraints 0 ex_db 7 ex_body) \<noteq> Inl (Error 400 ''Missing required fields'')"
proof -
  have h1: "totalQuestions (ex_body\<lparr>totalQuestions := Val 0\<rparr>) = Val 0" by simp
  have h2: "body_topic (ex_body\<lparr>body_topic := Val []\<rparr>) = Val []" by simp
  have h3: "body_score ex_body = Val 0 \<and> correctAnswers ex_body = Val 0 \<and>
    \<not> falsy_string (body_topic ex_body) \<and> \<not> falsy_number (totalQuestions ex_body)"
    by (simp add: ex_body_def falsy_string_def falsy_number_def)
  from falsy_fields_rejected[of "ex_body\<lparr>totalQuestions := Val 0\<rparr>" no_constraints 0 ex_db 7]
       falsy_fields_rejected[of "ex_body\<lparr>body_topic := Val []\<rparr>" no_constraints 0 ex_db 7]
       falsy_fields_rejected[of ex_body no_constraints 0 ex_db 7] h1 h2 h3
  show ?thesis by blast
qed

subsection \<open>Analytics and listings\<close>

text \<open>
  Claim C7 (analytics without data). For a user without attempts the overall row counts 0
  attempts, and the mean, the maximum and the minimum of the scores and the mean duration
  are NULL (\<open>None\<close>), not 0; the other two components are empty. The witness also shows
  a user whose only score is 0: the mean is then \<open>Some 0\<close>, which is not \<open>None\<close>.
\<close>

theorem analytics_no_data:
  assumes "attempts_of d u = []"
  shows "overall (get_analytics d u)
         = \<lparr>total_attempts = 0, average_score = None, best_score = None, worst_score = None,
            avg_duration = None\<rparr> \<and>
         topicStats (get_analytics d u) = [] \<and> recentAttempts (get_analytics d u) = []"
  using assms
  by (simp add: get_analytics_def overall_query_def topic_stats_query_def recent_query_def
      order_by_attempt_date_desc_def sql_avg_def sql_max_def sql_min_def non_null_def)

theorem analytics_no_data_witness:
  "attempts_of ex_db_attempts 3 = [] \<and>
   overall (get_analytics ex_db_attempts 3)
     = \<lparr>total_attempts = 0, average_score = None, best_score = None, worst_score = None,
        avg_duration = None\<rparr> \<and>
   average_score (overall (get_analytics ex_db_attempts 7)) = Some 0"
proof -
  have h: "attempts_of ex_db_attempts 3 = []"
    by (simp add: attempts_of_def ex_db_attempts_def)
  have z: "average_score (overall (get_analytics ex_db_attempts 7)) = Some 0"
    by (simp add: get_analytics_def overall_query_def attempts_of_def ex_db_attempts_def
        sql_avg_def non_null_def)
  from analytics_no_data[OF h] h z show ?thesis by blast
qed

lemma attempts_of_post_other:
  "a \<noteq> b \<Longrightarrow> attempts_of (snd (post_attempts c now d b body)) a = attempts_of d a"
  by (simp add: post_attempts_def Let_def attempts_of_def)

lemma set_order_by_attempt_date_desc [simp]:
  "set (order_by_attempt_date_desc rows) = set rows"
  by (simp add: order_by_attempt_date_desc_def)

text \<open>
  Claim C8 (per-user scoping). Every row of the listing of user \<open>a\<close> is a row of the table
  with \<open>user_id = a\<close>, and the listing is in descending order of \<^verbatim>\<open>attempt_date\<close>. The
  recent attempts are at most 20. And an attempt that another
  user \<open>b\<close> submits, whatever its body is and whether it is accepted or not, changes
  neither the listing of \<open>a\<close> nor any of the three components of the analytics of \<open>a\<close>.
\<close>

theorem per_user_scoping:
  assumes "a \<noteq> b"
  shows "(\<forall>r\<in>set (get_attempts d a). user_id r = a \<and> r \<in> set (interview_attempts d)) \<and>
         sorted (rev (map attempt_date (get_attempts d a))) \<and>
         length (recentAttempts (get_analytics d a)) \<le> 20 \<and>
         get_attempts (snd (post_attempts c now d b body)) a = get_attempts d a \<and>
         get_analytics (snd (post_attempts c now d b body)) a = get_analytics d a"
proof -
  have rows: "\<forall>r\<in>set (get_attempts d a). user_id r = a \<and> r \<in> set (interview_attempts d)"
    by (simp add: get_attempts_def attempts_of_def)
  have ord: "sorted (rev (map attempt_date (get_attempts d a)))"
    by (simp add: get_attempts_def order_by_attempt_date_desc_def rev_map)
  have len: "length (recentAttempts (get_analytics d a)) \<le> 20"
    by (simp add: get_analytics_def recent_query_def)
  have same: "attempts_of (snd (post_attempts c now d b body)) a = attempts_of d a"
    using assms by (rule attempts_of_post_other)
  have l: "get_attempts (snd (post_attempts c now d b body)) a = get_attempts d a"
    by (simp only: get_attempts_def same)
  have an: "get_analytics (snd (post_attempts c now d b body)) a = get_analytics d a"
    by (simp only: get_analytics_def overall_query_def topic_stats_query_def recent_query_def same)
  from rows ord len l an show ?thesis by (intro conjI)
qed

theorem per_user_scoping_witness:
  "(7::int) \<noteq> 9 \<and>
   get_attempts (snd (post_attempts no_constraints 300 ex_db_attempts 9 ex_body)) 7
     = get_attempts ex_db_attempts 7 \<and>
   get_analytics (snd (post_attempts no_constraints 300 ex_db_attempts 9 ex_body)) 7
     = get_analytics ex_db_attempts 7 \<and>
   length (interview_attempts (snd (post_attempts no_constraints 300 ex_db_attempts 9 ex_body))) = 3"
proof -
  have h: "(7::int) \<noteq> 9" by simp
  have ins: "length (interview_attempts (snd (post_attempts no_constraints 300 ex_db_attempts 9 ex_body))) = 3"
    by (simp add: post_attempts_def Let_def ex_body_def falsy_string_def falsy_number_def
        no_constraints_def ex_db_attempts_def)
  from per_user_scoping[OF h, of ex_db_attempts no_constraints 300 ex_body] h ins
  show ?thesis by blast
qed

subsection \<open>The count of a draw\<close>

lemma getRandomQuestions_not_validation:
  "\<not> is_validation_error (fst (getRandomQuestions d u t cnt rnd))"
  by (simp add: getRandomQuestions_def is_validation_error_def split: option.splits)

text \<open>Characters after the digits of a decimal count are ignored.\<close>

lemma decimal_digit_char:
  assumes "is_digit 10 c"
  shows "\<not> is_ws c" and "c \<noteq> CHR ''+''" and "c \<noteq> CHR ''-''" and "c \<noteq> CHR ''x''" and "c \<noteq> CHR ''X''"
  using assms
  by (auto simp: is_digit_def digit_val_def is_ws_def Let_def split: if_splits option.splits)

lemma js_parseInt_plain:
  assumes "s \<noteq> []" and "\<not> is_ws (hd s)" and "hd s \<noteq> CHR ''+''" and "hd s \<noteq> CHR ''-''"
    and "take 2 s \<noteq> ''0x''" and "take 2 s \<noteq> ''0X''"
  shows "js_parseInt s
         = (if takeWhile (is_digit 10) s = [] then NaN
            else case nearest_double (digits_value 10 (takeWhile (is_digit 10) s)) of
                   None \<Rightarrow> PosInfinity | Some v \<Rightarrow> Num v)"
proof -
  from assms(1) obtain c cs where s: "s = c # cs" by (cases s) auto
  have dw: "dropWhile is_ws s = s" using assms(2) s by simp
  have sg: "(case s of [] \<Rightarrow> 1 | c # _ \<Rightarrow> if c = CHR ''-'' then - 1 else (1::int)) = 1"
    using assms(4) s by simp
  have s1: "(case s of [] \<Rightarrow> s | c # r \<Rightarrow> if c = CHR ''+'' \<or> c = CHR ''-'' then r else s) = s"
    using assms(3,4) s by simp
  show ?thesis
    unfolding js_parseInt_def Let_def dw sg s1 using assms(5,6) by (simp split: option.splits)
qed

lemma js_parseInt_decimal_prefix:
  assumes ne: "ds \<noteq> []" and dig: "\<forall>c\<in>set ds. is_digit 10 c"
    and stop: "rest = [] \<or> \<not> is_digit 10 (hd rest)"
    and nohex: "take 2 (ds @ rest) \<noteq> ''0x''" "take 2 (ds @ rest) \<noteq> ''0X''"
  shows "js_parseInt (ds @ rest) = js_parseInt ds"
proof -
  from ne dig have c: "is_digit 10 (hd ds)" by simp
  note cc = decimal_digit_char[OF c]
  have hd_app: "hd (ds @ rest) = hd ds" using ne by simp
  have tw_rest: "takeWhile (is_digit 10) rest = []"
    using stop by (cases rest) auto
  have tw1: "takeWhile (is_digit 10) (ds @ rest) = ds"
    using dig tw_rest by (simp add: takeWhile_append2)
  have tw2: "takeWhile (is_digit 10) ds = ds"
    using dig by (simp add: takeWhile_eq_all_conv)
  have nohex_ds: "take 2 ds \<noteq> ''0x''" "take 2 ds \<noteq> ''0X''"
  proof -
    have "CHR ''x'' \<notin> set ds" "CHR ''X'' \<notin> set ds"
      using dig decimal_digit_char(4,5) by blast+
    moreover have "set (take 2 ds) \<subseteq> set ds" by (rule set_take_subset)
    ultimately show "take 2 ds \<noteq> ''0x''" "take 2 ds \<noteq> ''0X''" by auto
  qed
  have a: "js_parseInt (ds @ rest)
           = (case nearest_double (digits_value 10 ds) of
                None \<Rightarrow> PosInfinity | Some v \<Rightarrow> Num v)"
    using js_parseInt_plain[of "ds @ rest"] ne cc nohex by (simp only: hd_app tw1) simp
  have b: "js_parseInt ds
           = (case nearest_double (digits_value 10 ds) of
                None \<Rightarrow> PosInfinity | Some v \<Rightarrow> Num v)"
    using js_parseInt_plain[of ds] ne cc nohex_ds by (simp only: tw2) simp
  from a b show ?thesis by simp
qed

text \<open>
  Three counts at the edges of the model: the largest 64-bit integer is the double \<open>2 ^ 63\<close>,
  on which the query fails; NBSP before a digit is skipped.
\<close>

lemma bit_length_max_int64: "bit_length 9223372036854775807 = 63"
  by (simp add: bit_length.simps)

lemma parse_count_max_int64: "parse_count (Some ''9223372036854775807'') = Num (2 ^ 63)"
  by (simp add: parse_defs bit_length_max_int64)

lemma get_questions_max_int64:
  "fst (get_questions ex_db 7 ''js'' (Some ''9223372036854775807'') ex_rnd)
   = Inl (Error 500 ''Database error'')"
  by (simp add: get_questions_def getRandomQuestions_def parse_count_max_int64 sql_limit_def
      ex_defs used_count_def total_questions_of_def)

lemma parse_count_nbsp: "parse_count (Some [CHR 0xA0, CHR ''2'']) = Num 2"
  by (simp add: parse_defs)

text \<open>
  Claim C9 (validation of the count), as the code has it. The handler has no check of
  \<^verbatim>\<open>count\<close>: it hands \<^verbatim>\<open>parseInt(count)\<close> to the query. So no request is answered with a
  validation error. A count on which \<^verbatim>\<open>parseInt\<close> gives \<^verbatim>\<open>NaN\<close> (no digit after the white
  space, the sign and the prefix \<^verbatim>\<open>0x\<close>) makes the query fail, after the reset if one was
  due, and the answer is the storage error with status 500. A count that begins with
  decimal digits and goes on with other characters (and does not begin with \<^verbatim>\<open>0x\<close>) is
  answered exactly as the count of those digits alone.
\<close>

theorem count_not_validated:
  "\<not> is_validation_error (fst (get_questions d u t cnt rnd)) \<and>
   (parse_count cnt = NaN \<longrightarrow>
      get_questions d u t cnt rnd
      = (Inl (Error 500 ''Database error''),
         if total_questions_of d t \<le> used_count d t u then reset_usage d u t else d)) \<and>
   (ds \<noteq> [] \<and> (\<forall>c\<in>set ds. is_digit 10 c) \<and> (rest = [] \<or> \<not> is_digit 10 (hd rest)) \<and>
    take 2 (ds @ rest) \<noteq> ''0x'' \<and> take 2 (ds @ rest) \<noteq> ''0X'' \<longrightarrow>
      get_questions d u t (Some (ds @ rest)) rnd = get_questions d u t (Some ds) rnd)"
proof -
  have a: "\<not> is_validation_error (fst (get_questions d u t cnt rnd))"
    by (simp add: get_questions_def Let_def getRandomQuestions_not_validation)
  have b: "parse_count cnt = NaN \<longrightarrow>
      get_questions d u t cnt rnd
      = (Inl (Error 500 ''Database error''),
         if total_questions_of d t \<le> used_count d t u then reset_usage d u t else d)"
    by (simp add: get_questions_def Let_def getRandomQuestions_def sql_limit_def)
  have c: "ds \<noteq> [] \<and> (\<forall>c\<in>set ds. is_digit 10 c) \<and> (rest = [] \<or> \<not> is_digit 10 (hd rest)) \<and>
    take 2 (ds @ rest) \<noteq> ''0x'' \<and> take 2 (ds @ rest) \<noteq> ''0X'' \<longrightarrow>
      get_questions d u t (Some (ds @ rest)) rnd = get_questions d u t (Some ds) rnd"
  proof
    assume h: "ds \<noteq> [] \<and> (\<forall>c\<in>set ds. is_digit 10 c) \<and> (rest = [] \<or> \<not> is_digit 10 (hd rest)) \<and>
      take 2 (ds @ rest) \<noteq> ''0x'' \<and> take 2 (ds @ rest) \<noteq> ''0X''"
    then have "js_parseInt (ds @ rest) = js_parseInt ds"
      by (intro js_parseInt_decimal_prefix) simp_all
    then have "parse_count (Some (ds @ rest)) = parse_count (Some ds)"
      by (simp add: parse_count_def)
    then show "get_questions d u t (Some (ds @ rest)) rnd = get_questions d u t (Some ds) rnd"
      by (simp add: get_questions_def getRandomQuestions_def)
  qed
  from a b c show ?thesis by (intro conjI)
qed

theorem count_not_validated_witness:
  "parse_count (Some ''abc'') = NaN \<and>
   get_questions ex_db_all_used 7 ''js'' (Some ''abc'') ex_rnd
     = (Inl (Error 500 ''Database error''),
        if total_questions_of ex_db_all_used ''js'' \<le> used_count ex_db_all_used ''js'' 7
        then reset_usage ex_db_all_used 7 ''js'' else ex_db_all_used) \<and>
   get_questions ex_db 7 ''js'' (Some (''3'' @ ''abc'')) ex_rnd
     = get_questions ex_db 7 ''js'' (Some ''3'') ex_rnd"
proof -
  have h: "parse_count (Some ''abc'') = NaN"
    by (simp add: parse_defs)
  have k: "''3'' \<noteq> [] \<and> (\<forall>c\<in>set ''3''. is_digit 10 c) \<and>
           (''abc'' = [] \<or> \<not> is_digit 10 (hd ''abc'')) \<and>
           take 2 (''3'' @ ''abc'') \<noteq> ''0x'' \<and> take 2 (''3'' @ ''abc'') \<noteq> ''0X''"
    by (simp add: is_digit_def digit_val_def)
  from count_not_validated[of ex_db_all_used 7 "''js''" "Some ''abc''" ex_rnd]
       count_not_validated[of ex_db 7 "''js''" _ ex_rnd "''3''" "''abc''"] h k
  show ?thesis by blast
qed

text \<open>
  The claim as written fails: the count \<^verbatim>\<open>abc\<close> is answered with status 500, which is the
  storage error and not a validation error; and the count \<^verbatim>\<open>3abc\<close> is taken as 3.
\<close>

theorem count_validation_counterexample:
  "get_questions ex_db 7 ''js'' (Some ''abc'') ex_rnd = (Inl (Error 500 ''Database error''), ex_db) \<and>
   \<not> is_validation_error (fst (get_questions ex_db 7 ''js'' (Some ''abc'') ex_rnd)) \<and>
   fst (get_questions ex_db 7 ''js'' (Some ''3abc'') ex_rnd) = Inr [ex_q1, ex_q2, ex_q3] \<and>
   \<not> is_validation_error (fst (get_questions ex_db 7 ''js'' (Some ''3abc'') ex_rnd))"
  by (simp add: ex_db_def ex_q1_def ex_q2_def ex_q3_def ex_q4_def ex_rnd_def
      get_questions_def used_count_def total_questions_of_def
      getRandomQuestions_def parse_defs sql_limit_def order_by_random_def unused_questions_def
      is_validation_error_def)

end
